theory Spec2Isabelle
  imports Main "HOL-Library.Char_ord" "HOL-Library.List_Lexorder"
begin

section \<open>Python values\<close>

text \<open>
  The two scripts work on what \<^verbatim>\<open>json.load\<close> returns and on the cells of the table
  that \<^verbatim>\<open>pd.json_normalize\<close> builds from it. A value is \<^verbatim>\<open>None\<close>, a boolean, an
  integer, a string, a list or a dictionary with string keys. \<open>PNaN\<close> is the float
  \<^verbatim>\<open>nan\<close>, which the table holds in a cell whose key the filing does not have. Other
  floats are not represented. A dictionary is the list of its items in insertion order;
  lookup takes the first item with the key.

  A string is a \<^typ>\<open>string\<close>, each character a code point below 256. White space is
  Python's on that range. Letter case is that of the ASCII range, where it agrees with
  Python's; letters beyond ASCII are kept as they are.
\<close>

datatype pyval =
    PNone
  | PBool bool
  | PInt int
  | PNaN
  | PStr string
  | PList "pyval list"
  | PDict "(string \<times> pyval) list"

datatype py_error = KeyError | TypeError | AttributeError | ValueError

type_synonym 'a result = "py_error + 'a"

definition bind_result :: "'a result \<Rightarrow> ('a \<Rightarrow> 'b result) \<Rightarrow> 'b result" where
  "bind_result r f = (case r of Inl e \<Rightarrow> Inl e | Inr v \<Rightarrow> f v)"

subsection \<open>Strings\<close>

definition is_space :: "char \<Rightarrow> bool" where
  "is_space c = (c \<in> set [CHR 0x09, CHR 0x0A, CHR 0x0B, CHR 0x0C, CHR 0x0D,
                           CHR 0x1C, CHR 0x1D, CHR 0x1E, CHR 0x1F, CHR 0x20,
                           CHR 0x85, CHR 0xA0])"

definition lstrip :: "string \<Rightarrow> string" where
  "lstrip s = dropWhile is_space s"

definition rstrip :: "string \<Rightarrow> string" where
  "rstrip s = rev (dropWhile is_space (rev s))"

definition strip :: "string \<Rightarrow> string" where
  "strip s = rstrip (lstrip s)"

definition lower_char :: "char \<Rightarrow> char" where
  "lower_char c = (if CHR ''A'' \<le> c \<and> c \<le> CHR ''Z'' then char_of (of_char c + (32::nat)) else c)"

definition upper_char :: "char \<Rightarrow> char" where
  "upper_char c = (if CHR ''a'' \<le> c \<and> c \<le> CHR ''z'' then char_of (of_char c - (32::nat)) else c)"

definition lower :: "string \<Rightarrow> string" where
  "lower s = map lower_char s"

definition capitalize :: "string \<Rightarrow> string" where
  "capitalize s = (case s of [] \<Rightarrow> [] | c # cs \<Rightarrow> upper_char c # map lower_char cs)"

fun startswith :: "string \<Rightarrow> string \<Rightarrow> bool" where
  "startswith s [] = True"
| "startswith [] (p # ps) = False"
| "startswith (c # cs) (p # ps) = (c = p \<and> startswith cs ps)"

fun str_contains :: "string \<Rightarrow> string \<Rightarrow> bool" where
  "str_contains [] sub = (sub = [])"
| "str_contains (c # cs) sub = (startswith (c # cs) sub \<or> str_contains cs sub)"

fun join :: "string \<Rightarrow> string list \<Rightarrow> string" where
  "join sep [] = []"
| "join sep [x] = x"
| "join sep (x # y # ys) = x @ sep @ join sep (y # ys)"

subsection \<open>\<^verbatim>\<open>str\<close> and \<^verbatim>\<open>repr\<close>\<close>

text \<open>
  An f-string field \<^verbatim>\<open>{x}\<close> and \<^verbatim>\<open>str(x)\<close> give the string itself for a string and
  the \<^verbatim>\<open>repr\<close> for every other value modelled here.
\<close>

definition digit_char :: "nat \<Rightarrow> char" where
  "digit_char n = char_of (48 + n)"

fun digits_of :: "nat \<Rightarrow> string" where
  "digits_of n = (if n < 10 then [digit_char n] else digits_of (n div 10) @ [digit_char (n mod 10)])"

declare digits_of.simps [simp del]

definition repr_int :: "int \<Rightarrow> string" where
  "repr_int i = (if i < 0 then CHR ''-'' # digits_of (nat (- i)) else digits_of (nat i))"

definition hex_char :: "nat \<Rightarrow> char" where
  "hex_char n = (if n < 10 then char_of (48 + n) else char_of (87 + n))"

definition repr_quote :: "string \<Rightarrow> char" where
  "repr_quote s = (if CHR 0x27 \<in> set s \<and> CHR 0x22 \<notin> set s then CHR 0x22 else CHR 0x27)"

definition repr_char :: "char \<Rightarrow> char \<Rightarrow> string" where
  "repr_char q c =
     (if c = q \<or> c = CHR 0x5C then [CHR 0x5C, c]
      else if c = CHR 0x09 then [CHR 0x5C, CHR ''t'']
      else if c = CHR 0x0A then [CHR 0x5C, CHR ''n'']
      else if c = CHR 0x0D then [CHR 0x5C, CHR ''r'']
      else if c < CHR 0x20 \<or> c = CHR 0x7F
        then [CHR 0x5C, CHR ''x'', hex_char (of_char c div 16), hex_char (of_char c mod 16)]
      else [c])"

definition repr_str :: "string \<Rightarrow> string" where
  "repr_str s = (let q = repr_quote s in [q] @ concat (map (repr_char q) s) @ [q])"

fun py_repr :: "pyval \<Rightarrow> string" where
  "py_repr PNone = ''None''"
| "py_repr (PBool b) = (if b then ''True'' else ''False'')"
| "py_repr (PInt i) = repr_int i"
| "py_repr PNaN = ''nan''"
| "py_repr (PStr s) = repr_str s"
| "py_repr (PList xs) = ''['' @ join '', '' (map py_repr xs) @ '']''"
| "py_repr (PDict kvs) =
     ''{'' @ join '', '' (map (\<lambda>kv. repr_str (fst kv) @ '': '' @ py_repr (snd kv)) kvs) @ ''}''"

definition py_str :: "pyval \<Rightarrow> string" where
  "py_str v = (case v of PStr s \<Rightarrow> s | _ \<Rightarrow> py_repr v)"

subsection \<open>Truth value, \<^verbatim>\<open>isinstance\<close>, \<^verbatim>\<open>in\<close>, subscript and \<^verbatim>\<open>.get\<close>\<close>

fun truthy :: "pyval \<Rightarrow> bool" where
  "truthy PNone = False"
| "truthy (PBool b) = b"
| "truthy (PInt i) = (i \<noteq> 0)"
| "truthy PNaN = True"
| "truthy (PStr s) = (s \<noteq> [])"
| "truthy (PList xs) = (xs \<noteq> [])"
| "truthy (PDict kvs) = (kvs \<noteq> [])"

fun is_list :: "pyval \<Rightarrow> bool" where
  "is_list (PList xs) = True"
| "is_list v = False"

fun is_str :: "pyval \<Rightarrow> bool" where
  "is_str (PStr s) = True"
| "is_str v = False"

text \<open>
  \<^verbatim>\<open>k in x\<close> for a string \<open>k\<close>: a key test on a dictionary, a substring test on a
  string, an element test on a list, and a \<^verbatim>\<open>TypeError\<close> on a value that is not a
  container.
\<close>

fun contains :: "string \<Rightarrow> pyval \<Rightarrow> bool result" where
  "contains k (PDict kvs) = Inr (map_of kvs k \<noteq> None)"
| "contains k (PStr s) = Inr (str_contains s k)"
| "contains k (PList xs) = Inr (PStr k \<in> set xs)"
| "contains k v = Inl TypeError"

text \<open>\<^verbatim>\<open>x[k]\<close> for a string \<open>k\<close>: only a dictionary can be indexed by a string.\<close>

fun getitem :: "pyval \<Rightarrow> string \<Rightarrow> pyval result" where
  "getitem (PDict kvs) k = (case map_of kvs k of None \<Rightarrow> Inl KeyError | Some v \<Rightarrow> Inr v)"
| "getitem v k = Inl TypeError"

text \<open>\<^verbatim>\<open>x.get(k, d)\<close>: only a dictionary has the method.\<close>

fun get :: "pyval \<Rightarrow> string \<Rightarrow> pyval \<Rightarrow> pyval result" where
  "get (PDict kvs) k d = (case map_of kvs k of None \<Rightarrow> Inr d | Some v \<Rightarrow> Inr v)"
| "get v k d = Inl AttributeError"

text \<open>\<^verbatim>\<open>x.strip()\<close>: only a string has the method.\<close>

fun strip_method :: "pyval \<Rightarrow> string result" where
  "strip_method (PStr s) = Inr (strip s)"
| "strip_method v = Inl AttributeError"

text \<open>
  \<^verbatim>\<open>for x in v\<close>: the elements of a list, the characters of a string, the keys of a
  dictionary; any other value is not iterable.
\<close>

fun iterate :: "pyval \<Rightarrow> pyval list result" where
  "iterate (PList xs) = Inr xs"
| "iterate (PStr s) = Inr (map (\<lambda>c. PStr [c]) s)"
| "iterate (PDict kvs) = Inr (map (\<lambda>kv. PStr (fst kv)) kvs)"
| "iterate v = Inl TypeError"

text \<open>A list comprehension over a body that may raise: the first exception ends it.\<close>

fun map_result :: "('a \<Rightarrow> 'b result) \<Rightarrow> 'a list \<Rightarrow> 'b list result" where
  "map_result f [] = Inr []"
| "map_result f (x # xs) =
     (case f x of Inl e \<Rightarrow> Inl e
      | Inr y \<Rightarrow> (case map_result f xs of Inl e \<Rightarrow> Inl e | Inr ys \<Rightarrow> Inr (y # ys)))"

section \<open>Lobbyists\<close>

subsection \<open>What the two scripts share\<close>

text \<open>
  The display name of one entry of an activity's \<^verbatim>\<open>lobbyists\<close> list, in both scripts:
  \<^verbatim>\<open>f"{lobbyist['lobbyist'].get('first_name', '')} {lobbyist['lobbyist'].get('last_name', '')}".strip()\<close>
\<close>

definition display_name :: "pyval \<Rightarrow> string result" where
  "display_name lobbyist =
     bind_result (getitem lobbyist ''lobbyist'') (\<lambda>p1.
     bind_result (get p1 ''first_name'' (PStr [])) (\<lambda>first_name.
     bind_result (getitem lobbyist ''lobbyist'') (\<lambda>p2.
     bind_result (get p2 ''last_name'' (PStr [])) (\<lambda>last_name.
       Inr (strip (py_str first_name @ '' '' @ py_str last_name))))))"

text \<open>
  The guard on an activity, in both scripts:
  \<^verbatim>\<open>"lobbyists" in activity and isinstance(activity["lobbyists"], list)\<close>
\<close>

definition has_lobbyists :: "pyval \<Rightarrow> bool result" where
  "has_lobbyists activity =
     bind_result (contains ''lobbyists'' activity) (\<lambda>b.
       if b then bind_result (getitem activity ''lobbyists'') (\<lambda>v. Inr (is_list v))
       else Inr False)"

text \<open>The entries the inner loop visits for one activity: none when the guard is false.\<close>

definition activity_entries :: "pyval \<Rightarrow> pyval list result" where
  "activity_entries activity =
     bind_result (has_lobbyists activity) (\<lambda>b.
       if b then bind_result (getitem activity ''lobbyists'') iterate
       else Inr [])"

subsection \<open>\<^verbatim>\<open>streamlit_json.py\<close>: unique names with merged positions\<close>

text \<open>
  \<^verbatim>\<open>lobbyist_dict\<close> maps a name to a set of positions. The dictionary is the list of
  its items in insertion order. A set is a list without repetition, in the order of
  insertion; Python does not fix the order in which \<^verbatim>\<open>list(v)\<close> enumerates a set, so
  only the elements of \<open>positions\<close> are meaningful, not their order.
\<close>

record lobbyist_entry =
  name :: string
  positions :: "string list"

type_synonym lobbyist_dict = "(string \<times> string list) list"

text \<open>Line 24: \<^verbatim>\<open>lobbyist.get("covered_position", "").strip()\<close>\<close>

definition covered_position :: "pyval \<Rightarrow> string result" where
  "covered_position lobbyist =
     bind_result (get lobbyist ''covered_position'' (PStr [])) strip_method"

definition set_add :: "string list \<Rightarrow> string \<Rightarrow> string list" where
  "set_add v x = (if x \<in> set v then v else v @ [x])"

definition dict_add :: "lobbyist_dict \<Rightarrow> string \<Rightarrow> string \<Rightarrow> lobbyist_dict" where
  "dict_add d k x = map (\<lambda>kv. if fst kv = k then (fst kv, set_add (snd kv) x) else kv) d"

text \<open>Lines 27 to 31, the body of the inner loop once name and position are known.\<close>

definition merge_lobbyist :: "lobbyist_dict \<Rightarrow> string \<Rightarrow> string \<Rightarrow> lobbyist_dict" where
  "merge_lobbyist d nm cp =
     (if nm \<noteq> [] then
        let d1 = (if map_of d nm = None then d @ [(nm, [])] else d)
        in if cp \<noteq> [] \<and> lower cp \<notin> set [''n/a'', []] then dict_add d1 nm cp else d1
      else d)"

fun lobbyists_loop :: "lobbyist_dict \<Rightarrow> pyval list \<Rightarrow> lobbyist_dict result" where
  "lobbyists_loop d [] = Inr d"
| "lobbyists_loop d (lobbyist # rest) =
     (case display_name lobbyist of Inl e \<Rightarrow> Inl e
      | Inr nm \<Rightarrow>
        (case covered_position lobbyist of Inl e \<Rightarrow> Inl e
         | Inr cp \<Rightarrow> lobbyists_loop (merge_lobbyist d nm cp) rest))"

fun activities_loop :: "lobbyist_dict \<Rightarrow> pyval list \<Rightarrow> lobbyist_dict result" where
  "activities_loop d [] = Inr d"
| "activities_loop d (activity # rest) =
     (case activity_entries activity of Inl e \<Rightarrow> Inl e
      | Inr entries \<Rightarrow>
        (case lobbyists_loop d entries of Inl e \<Rightarrow> Inl e
         | Inr d' \<Rightarrow> activities_loop d' rest))"

definition extract_lobbyists :: "pyval \<Rightarrow> lobbyist_entry list result" where
  "extract_lobbyists activity_list =
     (case activity_list of
        PList activities \<Rightarrow>
          (case activities_loop [] activities of Inl e \<Rightarrow> Inl e
           | Inr d \<Rightarrow> Inr (map (\<lambda>kv. \<lparr>name = fst kv, positions = snd kv\<rparr>) d))
      | _ \<Rightarrow> Inr [])"

subsection \<open>\<^verbatim>\<open>streamlit_app.py\<close>: a list of names and a list of positions\<close>

fun names_of_activities :: "pyval list \<Rightarrow> string list result" where
  "names_of_activities [] = Inr []"
| "names_of_activities (activity # rest) =
     (case activity_entries activity of Inl e \<Rightarrow> Inl e
      | Inr entries \<Rightarrow>
        (case map_result display_name entries of Inl e \<Rightarrow> Inl e
         | Inr names \<Rightarrow>
           (case names_of_activities rest of Inl e \<Rightarrow> Inl e
            | Inr others \<Rightarrow> Inr (names @ others))))"

definition extract_lobbyists_app :: "pyval \<Rightarrow> string list result" where
  "extract_lobbyists_app activity_list =
     (case activity_list of PList activities \<Rightarrow> names_of_activities activities | _ \<Rightarrow> Inr [])"

text \<open>
  One entry's contribution to \<^verbatim>\<open>positions\<close>: the filter
  \<^verbatim>\<open>if lobbyist.get("covered_position")\<close> is evaluated first, then
  \<^verbatim>\<open>str(lobbyist.get("covered_position", "")).strip()\<close>.
\<close>

definition position_of :: "pyval \<Rightarrow> string list result" where
  "position_of lobbyist =
     bind_result (get lobbyist ''covered_position'' PNone) (\<lambda>c.
       if truthy c
       then bind_result (get lobbyist ''covered_position'' (PStr [])) (\<lambda>v. Inr [strip (py_str v)])
       else Inr [])"

fun positions_of_activities :: "pyval list \<Rightarrow> string list result" where
  "positions_of_activities [] = Inr []"
| "positions_of_activities (activity # rest) =
     (case activity_entries activity of Inl e \<Rightarrow> Inl e
      | Inr entries \<Rightarrow>
        (case map_result position_of entries of Inl e \<Rightarrow> Inl e
         | Inr ps \<Rightarrow>
           (case positions_of_activities rest of Inl e \<Rightarrow> Inl e
            | Inr others \<Rightarrow> Inr (concat ps @ others))))"

definition extract_covered_positions :: "pyval \<Rightarrow> string list result" where
  "extract_covered_positions activity_list =
     (case activity_list of
        PList activities \<Rightarrow>
          (case positions_of_activities activities of Inl e \<Rightarrow> Inl e
           | Inr ps \<Rightarrow> Inr (sort (remdups (filter (\<lambda>pos. pos \<noteq> [] \<and> lower pos \<noteq> ''n/a'') ps))))
      | _ \<Rightarrow> Inr [])"

section \<open>Foreign entities\<close>

text \<open>
  \<^verbatim>\<open>streamlit_json.py\<close>, \<^verbatim>\<open>extract_foreign_entities\<close>:
  \<^verbatim>\<open>[e["name"] for e in entities_list if "name" in e]\<close> for a list, \<^verbatim>\<open>[]\<close> otherwise.
\<close>

definition entity_name :: "pyval \<Rightarrow> pyval list result" where
  "entity_name e =
     bind_result (contains ''name'' e) (\<lambda>b.
       if b then bind_result (getitem e ''name'') (\<lambda>v. Inr [v]) else Inr [])"

definition extract_foreign_entities :: "pyval \<Rightarrow> pyval list result" where
  "extract_foreign_entities entities_list =
     (case entities_list of
        PList es \<Rightarrow> (case map_result entity_name es of Inl e \<Rightarrow> Inl e | Inr ns \<Rightarrow> Inr (concat ns))
      | _ \<Rightarrow> Inr [])"

text \<open>
  \<^verbatim>\<open>streamlit_app.py\<close>, line 43:
  \<^verbatim>\<open>lambda x: [e["name"] for e in x] if isinstance(x, list) else []\<close>
\<close>

definition foreign_entities_app :: "pyval \<Rightarrow> pyval list result" where
  "foreign_entities_app x =
     (case x of PList es \<Rightarrow> map_result (\<lambda>e. getitem e ''name'') es | _ \<Rightarrow> Inr [])"

section \<open>Registrant type and filing link\<close>

text \<open>
  \<^verbatim>\<open>pd.notna(x)\<close> used as a condition. A scalar is tested for \<^verbatim>\<open>None\<close> and
  \<^verbatim>\<open>nan\<close>. A list is turned into an array and tested element by element; the truth
  value of the resulting array is that of its only element when it has exactly one, and
  a \<^verbatim>\<open>ValueError\<close> otherwise (for an empty array since NumPy 2.2; earlier versions
  answered \<^verbatim>\<open>False\<close> with a warning).
\<close>

fun pd_notna :: "pyval \<Rightarrow> bool result" where
  "pd_notna PNone = Inr False"
| "pd_notna PNaN = Inr False"
| "pd_notna (PList [x]) = pd_notna x"
| "pd_notna (PList xs) = Inl ValueError"
| "pd_notna v = Inr True"

text \<open>\<^verbatim>\<open>streamlit_json.py\<close>, \<^verbatim>\<open>normalize_text\<close> and line 55.\<close>

definition normalize_text :: "pyval \<Rightarrow> pyval" where
  "normalize_text text = (case text of PStr s \<Rightarrow> PStr (capitalize (lower s)) | _ \<Rightarrow> text)"

definition registrant_type :: "pyval \<Rightarrow> pyval result" where
  "registrant_type x =
     bind_result (pd_notna x) (\<lambda>b. Inr (if b then normalize_text x else PStr ''Unknown''))"

text \<open>
  \<^verbatim>\<open>streamlit_app.py\<close>, line 42: \<^verbatim>\<open>fillna("Unknown")\<close> replaces the cells that hold
  \<^verbatim>\<open>None\<close> or \<^verbatim>\<open>nan\<close> and leaves every other cell as it is.
\<close>

definition registrant_type_app :: "pyval \<Rightarrow> pyval" where
  "registrant_type_app x = (if x = PNone \<or> x = PNaN then PStr ''Unknown'' else x)"

text \<open>\<^verbatim>\<open>streamlit_json.py\<close>, \<^verbatim>\<open>create_hyperlink\<close>.\<close>

definition anchor :: "string \<Rightarrow> string" where
  \<open>anchor url = ''<a href="'' @ url @ ''" target="_blank">View Filing</a>''\<close>

definition create_hyperlink :: "pyval \<Rightarrow> string result" where
  "create_hyperlink url =
     bind_result (pd_notna url) (\<lambda>b. Inr (if b then anchor (py_str url) else []))"

section \<open>The table\<close>

subsection \<open>Columns of the flattened rows\<close>

text \<open>
  \<^verbatim>\<open>pd.json_normalize\<close> gives one row per filing. A flat row is the list of its
  keys and cells. The table has a column for every key some row has; in that column a
  row without the key holds \<^verbatim>\<open>nan\<close>. \<^verbatim>\<open>df[k]\<close> for a key no row has raises
  \<^verbatim>\<open>KeyError\<close>.

  The statements of the scripts that work on whole columns are at module level, with no
  handler around them: an exception there ends the script, and no table is shown. For
  these the result is an option, \<open>None\<close> for an exception of any kind.
\<close>

type_synonym flat_row = "(string \<times> pyval) list"

definition cell :: "string \<Rightarrow> flat_row \<Rightarrow> pyval" where
  "cell k r = (case map_of r k of None \<Rightarrow> PNaN | Some v \<Rightarrow> v)"

definition df_column :: "string \<Rightarrow> flat_row list \<Rightarrow> pyval list option" where
  "df_column k rows =
     (if list_ex (\<lambda>r. map_of r k \<noteq> None) rows then Some (map (cell k) rows) else None)"

subsection \<open>\<^verbatim>\<open>int(s)\<close> for a string\<close>

text \<open>
  White space around, an optional sign, then decimal digits; single underscores may
  stand between digits. The white space \<^verbatim>\<open>int\<close> passes over is not that of
  \<^verbatim>\<open>strip\<close>: the four separators \<open>0x1C\<close> to \<open>0x1F\<close> are not part of it.
\<close>

definition is_int_space :: "char \<Rightarrow> bool" where
  "is_int_space c = (c \<in> set [CHR 0x09, CHR 0x0A, CHR 0x0B, CHR 0x0C, CHR 0x0D, CHR 0x20,
                               CHR 0x85, CHR 0xA0])"

definition int_trim :: "string \<Rightarrow> string" where
  "int_trim s = rev (dropWhile is_int_space (rev (dropWhile is_int_space s)))"

definition is_digit :: "char \<Rightarrow> bool" where
  "is_digit c = (CHR ''0'' \<le> c \<and> c \<le> CHR ''9'')"

fun digit_groups :: "string \<Rightarrow> bool" where
  "digit_groups [] = False"
| "digit_groups [c] = is_digit c"
| "digit_groups (c # d # cs) =
     (is_digit c \<and> (if d = CHR ''_'' then digit_groups cs else digit_groups (d # cs)))"

definition digits_value :: "string \<Rightarrow> int" where
  "digits_value ds = foldl (\<lambda>n c. 10 * n + (of_char c - 48)) 0 (filter is_digit ds)"

definition unsigned_of_str :: "string \<Rightarrow> int option" where
  "unsigned_of_str s = (if digit_groups s then Some (digits_value s) else None)"

definition int_of_str :: "string \<Rightarrow> int option" where
  "int_of_str s =
     (case int_trim s of
        [] \<Rightarrow> None
      | c # cs \<Rightarrow>
          if c = CHR ''-'' then map_option uminus (unsigned_of_str cs)
          else if c = CHR ''+'' then unsigned_of_str cs
          else unsigned_of_str (c # cs))"

subsection \<open>The year column\<close>

definition int64_ok :: "int \<Rightarrow> bool" where
  "int64_ok n = (- (2 ^ 63) \<le> n \<and> n < 2 ^ 63)"

definition uint64_ok :: "int \<Rightarrow> bool" where
  "uint64_ok n = (0 \<le> n \<and> n < 2 ^ 64)"

definition checked_int64 :: "int \<Rightarrow> int option" where
  "checked_int64 n = (if int64_ok n then Some n else None)"

text \<open>An unsigned 64-bit integer read as a signed one.\<close>

definition wrap_int64 :: "int \<Rightarrow> int" where
  "wrap_int64 n = (if n < 2 ^ 63 then n else n - 2 ^ 64)"

fun is_int :: "pyval \<Rightarrow> bool" where
  "is_int (PInt n) = True"
| "is_int v = False"

text \<open>The integers of a column that holds nothing else.\<close>

definition ints_of :: "pyval list \<Rightarrow> int list option" where
  "ints_of col = those (map (\<lambda>v. case v of PInt n \<Rightarrow> Some n | _ \<Rightarrow> None) col)"

text \<open>
  \<^verbatim>\<open>streamlit_app.py\<close>, line 12: \<^verbatim>\<open>df["filing_year"].astype(int)\<close>, into 64 bits signed.

  A column of integers only is stored as such when the table is built. When all fit 64
  bits signed the conversion changes nothing. When all are non-negative and fit 64 bits
  unsigned, but not all signed, the column is unsigned and the conversion wraps the
  large ones around without an exception. Otherwise the column holds Python integers,
  and the one beyond 64 bits raises.

  Every other column is converted cell by cell as \<^verbatim>\<open>int\<close> converts: a missing cell, a
  list, a string that \<^verbatim>\<open>int\<close> rejects or an integer beyond 64 bits raises, and with it
  the whole statement.
\<close>

fun int_of_cell :: "pyval \<Rightarrow> int option" where
  "int_of_cell (PInt n) = checked_int64 n"
| "int_of_cell (PBool b) = Some (if b then 1 else 0)"
| "int_of_cell (PStr s) = Option.bind (int_of_str s) checked_int64"
| "int_of_cell v = None"

definition astype_int :: "pyval list \<Rightarrow> int list option" where
  "astype_int col =
     (case ints_of col of
        Some ns \<Rightarrow>
          if list_all int64_ok ns then Some ns
          else if list_all uint64_ok ns then Some (map wrap_int64 ns)
          else None
      | None \<Rightarrow> those (map int_of_cell col))"

definition filing_year_app :: "flat_row list \<Rightarrow> int list option" where
  "filing_year_app rows = Option.bind (df_column ''filing_year'' rows) astype_int"

text \<open>
  The nearest 64-bit float of an integer, ties to the even mantissa: an integer of more
  than 53 bits keeps its 53 leading bits.
\<close>

function bit_count :: "int \<Rightarrow> nat" where
  "bit_count n = (if n \<le> 0 then 0 else Suc (bit_count (n div 2)))"
  by pat_completeness auto
termination
  by (relation "measure nat") auto

declare bit_count.simps [simp del]

definition round_float64 :: "int \<Rightarrow> int" where
  "round_float64 n =
     (if \<bar>n\<bar> \<le> 2 ^ 53 then n
      else
        let a = \<bar>n\<bar>;
            e = bit_count a - 53;
            q = a div 2 ^ e;
            r = a mod 2 ^ e;
            h = 2 ^ (e - 1);
            q' = (if h < r \<or> (r = h \<and> odd q) then q + 1 else q)
        in sgn n * (q' * 2 ^ e))"

text \<open>
  \<^verbatim>\<open>streamlit_json.py\<close>, line 62: \<^verbatim>\<open>df["filing_year"].astype("Int64")\<close>, the nullable
  integer type. A cell that holds \<^verbatim>\<open>None\<close> or \<^verbatim>\<open>nan\<close> becomes the missing value
  \<^verbatim>\<open><NA>\<close>, here \<open>None\<close>.

  A column of integers and missing cells, with one missing cell at least, was stored as
  64-bit floats when the table was built: each integer is converted from the nearest
  float. Strings are parsed only in a column whose cells are all strings or missing; in
  a mixed column a string raises. A cell that cannot be converted into 64 bits signed
  raises, and with it the whole statement.
\<close>

definition isna :: "pyval \<Rightarrow> bool" where
  "isna v = (v = PNone \<or> v = PNaN)"

fun Int64_of_cell :: "bool \<Rightarrow> bool \<Rightarrow> pyval \<Rightarrow> int option option" where
  "Int64_of_cell strs floats PNone = Some None"
| "Int64_of_cell strs floats PNaN = Some None"
| "Int64_of_cell strs floats (PInt n) =
     (if floats
      then (if n < - (2 ^ 63) then None else map_option Some (checked_int64 (round_float64 n)))
      else map_option Some (checked_int64 n))"
| "Int64_of_cell strs floats (PBool b) = Some (Some (if b then 1 else 0))"
| "Int64_of_cell strs floats (PStr s) =
     (if strs then map_option Some (Option.bind (int_of_str s) checked_int64) else None)"
| "Int64_of_cell strs floats v = None"

definition astype_Int64 :: "pyval list \<Rightarrow> int option list option" where
  "astype_Int64 col =
     (let strs = list_all (\<lambda>v. isna v \<or> is_str v) col;
          floats = (list_ex isna col \<and> list_all (\<lambda>v. isna v \<or> is_int v) col)
      in those (map (Int64_of_cell strs floats) col))"

definition filing_year_json :: "flat_row list \<Rightarrow> int option list option" where
  "filing_year_json rows = Option.bind (df_column ''filing_year'' rows) astype_Int64"

subsection \<open>Filters\<close>

text \<open>
  The columns of the derived table that the sidebar filters read. The year is \<open>None\<close>
  where it is \<^verbatim>\<open><NA>\<close>. A record with further fields is a row with further columns.
\<close>

record row =
  filing_year :: "int option"
  client_name :: pyval
  registrant_name :: pyval
  foreign_entities :: "pyval list"

text \<open>\<^verbatim>\<open>df[mask]\<close>: the rows at which the mask is true, in order.\<close>

definition select_rows :: "('r \<Rightarrow> bool) \<Rightarrow> 'r list \<Rightarrow> 'r list" where
  "select_rows chosen df = filter chosen df"

text \<open>
  \<^verbatim>\<open>isin\<close> on the year column: the choices are integers, and \<^verbatim>\<open><NA>\<close> is none of
  them. On the other columns a cell is compared with the choices as a value.
\<close>

definition isin_year :: "int option \<Rightarrow> int list \<Rightarrow> bool" where
  "isin_year y choices = (case y of None \<Rightarrow> False | Some v \<Rightarrow> v \<in> set choices)"

definition isin :: "pyval \<Rightarrow> pyval list \<Rightarrow> bool" where
  "isin v choices = (v \<in> set choices)"

definition apply_year_filter :: "int list \<Rightarrow> 'a row_scheme list \<Rightarrow> 'a row_scheme list" where
  "apply_year_filter year_filter df =
     (if year_filter \<noteq> [] then select_rows (\<lambda>r. isin_year (filing_year r) year_filter) df else df)"

definition apply_client_filter :: "pyval list \<Rightarrow> 'a row_scheme list \<Rightarrow> 'a row_scheme list" where
  "apply_client_filter client_filter df =
     (if client_filter \<noteq> [] then select_rows (\<lambda>r. isin (client_name r) client_filter) df else df)"

definition apply_registrant_filter :: "pyval list \<Rightarrow> 'a row_scheme list \<Rightarrow> 'a row_scheme list" where
  "apply_registrant_filter registrant_filter df =
     (if registrant_filter \<noteq> []
      then select_rows (\<lambda>r. isin (registrant_name r) registrant_filter) df else df)"

definition apply_foreign_filter :: "pyval list \<Rightarrow> 'a row_scheme list \<Rightarrow> 'a row_scheme list" where
  "apply_foreign_filter foreign_filter df =
     (if foreign_filter \<noteq> []
      then select_rows (\<lambda>r. list_ex (\<lambda>entity. entity \<in> set (foreign_entities r)) foreign_filter) df
      else df)"

subsection \<open>Counts\<close>

text \<open>
  \<^verbatim>\<open>explode\<close> on a column whose cells are lists, as the derived columns are: one
  row per element, and one row holding \<^verbatim>\<open>nan\<close> for an empty list.
\<close>

definition explode_cell :: "pyval list \<Rightarrow> pyval list" where
  "explode_cell xs = (if xs = [] then [PNaN] else xs)"

definition explode :: "pyval list list \<Rightarrow> pyval list" where
  "explode col = concat (map explode_cell col)"

definition dropna :: "pyval list \<Rightarrow> pyval list" where
  "dropna col = filter (\<lambda>v. \<not> isna v) col"

text \<open>
  \<^verbatim>\<open>value_counts\<close>: the number of occurrences of each value that occurs, missing
  values left out. The result is the mapping from value to count; the order in which
  pandas lists it is not modelled. A list or a dictionary cannot be hashed and raises
  \<^verbatim>\<open>TypeError\<close>.
\<close>

fun hashable :: "pyval \<Rightarrow> bool" where
  "hashable (PList xs) = False"
| "hashable (PDict kvs) = False"
| "hashable v = True"

definition value_counts :: "pyval list \<Rightarrow> (pyval \<rightharpoonup> nat) result" where
  "value_counts col =
     (if list_all hashable col
      then Inr (\<lambda>v. if isna v \<or> count_list col v = 0 then None else Some (count_list col v))
      else Inl TypeError)"

text \<open>The same on the year column, \<^verbatim>\<open>df_filtered["filing_year"].value_counts()\<close>.\<close>

definition year_counts :: "int option list \<Rightarrow> (int \<rightharpoonup> nat)" where
  "year_counts col =
     (\<lambda>y. if count_list col (Some y) = 0 then None else Some (count_list col (Some y)))"

section \<open>Notions of the specification, examples and auxiliary notions\<close>

subsection \<open>What the specification asks of the merged collection\<close>

text \<open>
  The lobbyist entries of a filing: those of every activity whose \<^verbatim>\<open>lobbyists\<close> field is
  a list, in order.
\<close>

definition filing_entries :: "pyval list \<Rightarrow> pyval list" where
  "filing_entries activities =
     concat (map (\<lambda>a. case activity_entries a of Inl e \<Rightarrow> [] | Inr es \<Rightarrow> es) activities)"

text \<open>
  The cleaned covered position of a raw string: trimmed, and dropped when it is empty
  or reads \<^verbatim>\<open>n/a\<close> in any letter case.
\<close>

definition cleaned :: "string \<Rightarrow> string list" where
  "cleaned raw = (let p = strip raw in if p = [] \<or> lower p = ''n/a'' then [] else [p])"

text \<open>The non-empty display names a filing mentions.\<close>

definition spec_names :: "pyval list \<Rightarrow> string list" where
  "spec_names activities =
     concat (map (\<lambda>l. case display_name l of Inl e \<Rightarrow> [] | Inr nm \<Rightarrow> if nm = [] then [] else [nm])
                 (filing_entries activities))"

text \<open>The cleaned positions of all entries of a filing that carry a given display name.\<close>

definition spec_positions :: "pyval list \<Rightarrow> string \<Rightarrow> string list" where
  "spec_positions activities nm =
     concat (map (\<lambda>l. if display_name l = Inr nm
                       then (case get l ''covered_position'' (PStr []) of
                               Inr (PStr raw) \<Rightarrow> cleaned raw
                             | _ \<Rightarrow> [])
                       else [])
                 (filing_entries activities))"

subsection \<open>What the specification says of the year\<close>

text \<open>
  A year cell that is missing (\<^verbatim>\<open>nan\<close> for an absent key, \<^verbatim>\<open>None\<close> for null) or an
  integer of magnitude up to \<open>2 ^ 53\<close>, and the year it stands for.
\<close>

definition year_or_missing :: "pyval \<Rightarrow> bool" where
  "year_or_missing v = (case v of PInt n \<Rightarrow> \<bar>n\<bar> \<le> 2 ^ 53 | _ \<Rightarrow> isna v)"

definition year_of :: "pyval \<Rightarrow> int option" where
  "year_of v = (case v of PInt n \<Rightarrow> Some n | _ \<Rightarrow> None)"

text \<open>The same, or a string.\<close>

definition year_cell :: "pyval \<Rightarrow> bool" where
  "year_cell v = (case v of PInt n \<Rightarrow> \<bar>n\<bar> \<le> 2 ^ 53 | PStr s \<Rightarrow> True | _ \<Rightarrow> isna v)"

text \<open>A year given as a string that \<^verbatim>\<open>int\<close> cannot convert into 64 bits.\<close>

definition not_convertible :: "pyval \<Rightarrow> bool" where
  "not_convertible v = (is_str v \<and> int_of_cell v = None)"

subsection \<open>Auxiliary notions for the proofs\<close>

text \<open>The positions a dictionary holds under a key, as a set.\<close>

definition vals :: "lobbyist_dict \<Rightarrow> string \<Rightarrow> string set" where
  "vals d k = (case map_of d k of None \<Rightarrow> {} | Some v \<Rightarrow> set v)"

text \<open>The test of line 30 on a trimmed position.\<close>

definition keep :: "string \<Rightarrow> bool" where
  "keep cp = (cp \<noteq> [] \<and> lower cp \<notin> set [''n/a'', []])"

definition vals_distinct :: "lobbyist_dict \<Rightarrow> bool" where
  "vals_distinct d = (\<forall>kv \<in> set d. distinct (snd kv))"


subsection \<open>Example filings\<close>

text \<open>A lobbyist entry for Jane Doe with a given covered position.\<close>

definition jane_doe :: "pyval \<Rightarrow> pyval" where
  "jane_doe position =
     PDict [(''lobbyist'', PDict [(''first_name'', PStr ''Jane''), (''last_name'', PStr ''Doe'')]),
            (''covered_position'', position)]"

text \<open>Two activities of one filing that both list Jane Doe, with different positions.\<close>

definition two_activities :: "pyval list" where
  "two_activities =
     [PDict [(''lobbyists'', PList [jane_doe (PStr ''Senator'')])],
      PDict [(''lobbyists'', PList [jane_doe (PStr ''Advisor'')])]]"

text \<open>One activity whose lobbyist has \<^verbatim>\<open>"covered_position": null\<close>.\<close>

definition null_position :: "pyval list" where
  "null_position = [PDict [(''lobbyists'', PList [jane_doe PNone])]]"

text \<open>One activity whose lobbyist has neither first nor last name.\<close>

definition nameless :: "pyval" where
  "nameless = PDict [(''lobbyist'', PDict []), (''covered_position'', PStr ''Senator'')]"

text \<open>Two foreign entities, the second without a \<^verbatim>\<open>name\<close>.\<close>

definition one_unnamed_entity :: "pyval" where
  "one_unnamed_entity =
     PList [PDict [(''name'', PStr ''Acme Corp'')], PDict [(''country'', PStr ''CN'')]]"

text \<open>Three flat rows: a year, no year key, a null year.\<close>

definition years_with_gaps :: "flat_row list" where
  "years_with_gaps =
     [[(''filing_year'', PInt 2023), (''client_name'', PStr ''Acme Corp'')],
      [(''client_name'', PStr ''Initech'')],
      [(''filing_year'', PNone), (''client_name'', PStr ''Globex'')]]"

text \<open>Two flat rows, the second with a year that is not a number.\<close>

definition years_with_text :: "flat_row list" where
  "years_with_text =
     [[(''filing_year'', PInt 2023)], [(''filing_year'', PStr ''abc'')]]"

text \<open>Two rows of the derived table, the second without a year.\<close>

definition acme_row :: row where
  "acme_row = \<lparr>filing_year = Some 2023, client_name = PStr ''Acme Corp'',
                registrant_name = PStr ''Smith LLP'', foreign_entities = []\<rparr>"

definition initech_row :: row where
  "initech_row = \<lparr>filing_year = None, client_name = PStr ''Initech'',
                   registrant_name = PStr ''Smith LLP'', foreign_entities = []\<rparr>"

text \<open>Three flat rows with years given as strings, the second without a year key.\<close>

definition text_years_with_gap :: "flat_row list" where
  "text_years_with_gap =
     [[(''filing_year'', PStr ''2023'')], [(''client_name'', PStr ''Initech'')],
      [(''filing_year'', PStr '' 2024 '')]]"

section \<open>Properties of the merged collection\<close>

lemma lower_Nil_iff: "lower s = [] \<longleftrightarrow> s = []"
  by (simp add: lower_def)

lemma keep_iff: "keep cp \<longleftrightarrow> cp \<noteq> [] \<and> lower cp \<noteq> ''n/a''"
  by (auto simp: keep_def lower_Nil_iff)

lemma map_of_dict_add:
  "map_of (dict_add d k x) k' = (if k' = k then map_option (\<lambda>v. set_add v x) (map_of d k) else map_of d k')"
  by (induction d) (auto simp: dict_add_def)

lemma keys_dict_add: "map fst (dict_add d k x) = map fst d"
  by (induction d) (auto simp: dict_add_def)

lemma set_set_add: "set (set_add v x) = insert x (set v)"
  by (auto simp: set_add_def)

lemma distinct_set_add: "distinct v \<Longrightarrow> distinct (set_add v x)"
  by (auto simp: set_add_def)

lemma map_fst_merge:
  "map fst (merge_lobbyist d nm cp) =
     (if nm \<noteq> [] \<and> map_of d nm = None then map fst d @ [nm] else map fst d)"
  by (simp add: merge_lobbyist_def Let_def keys_dict_add)

lemma keys_merge:
  "set (map fst (merge_lobbyist d nm cp)) = set (map fst d) \<union> (if nm = [] then {} else {nm})"
  unfolding map_fst_merge by (auto simp: map_of_eq_None_iff)

lemma distinct_keys_merge:
  "distinct (map fst d) \<Longrightarrow> distinct (map fst (merge_lobbyist d nm cp))"
  unfolding map_fst_merge by (auto simp: map_of_eq_None_iff)

lemma vals_merge:
  "vals (merge_lobbyist d nm cp) k =
     vals d k \<union> (if k = nm \<and> nm \<noteq> [] \<and> keep cp then {cp} else {})"
  by (auto simp: vals_def merge_lobbyist_def Let_def map_of_dict_add keep_def set_set_add
           split: option.splits if_splits)

lemma vals_distinct_dict_add: "vals_distinct d \<Longrightarrow> vals_distinct (dict_add d k x)"
  by (auto simp: vals_distinct_def dict_add_def distinct_set_add)

lemma vals_distinct_merge: "vals_distinct d \<Longrightarrow> vals_distinct (merge_lobbyist d nm cp)"
proof -
  assume a: "vals_distinct d"
  then have "vals_distinct (d @ [(nm, [])])" by (auto simp: vals_distinct_def)
  with a show ?thesis
    by (simp add: merge_lobbyist_def Let_def vals_distinct_dict_add)
qed

lemma lobbyists_loop_keys:
  "lobbyists_loop d es = Inr d' \<Longrightarrow>
     set (map fst d') = set (map fst d) \<union> {nm. nm \<noteq> [] \<and> (\<exists>l \<in> set es. display_name l = Inr nm)}"
proof (induction es arbitrary: d)
  case Nil
  then show ?case by simp
next
  case (Cons l es)
  from Cons.prems obtain nm cp where
    nm: "display_name l = Inr nm" and cp: "covered_position l = Inr cp"
    and rest: "lobbyists_loop (merge_lobbyist d nm cp) es = Inr d'"
    by (auto split: sum.splits)
  from Cons.IH [OF rest] nm show ?case
    unfolding keys_merge by auto
qed

lemma lobbyists_loop_distinct_keys:
  "lobbyists_loop d es = Inr d' \<Longrightarrow> distinct (map fst d) \<Longrightarrow> distinct (map fst d')"
proof (induction es arbitrary: d)
  case Nil
  then show ?case by simp
next
  case (Cons l es)
  from Cons.prems(1) obtain nm cp where
    rest: "lobbyists_loop (merge_lobbyist d nm cp) es = Inr d'"
    by (auto split: sum.splits)
  from Cons.IH [OF rest distinct_keys_merge [OF Cons.prems(2)]] show ?case .
qed

lemma lobbyists_loop_vals_distinct:
  "lobbyists_loop d es = Inr d' \<Longrightarrow> vals_distinct d \<Longrightarrow> vals_distinct d'"
proof (induction es arbitrary: d)
  case Nil
  then show ?case by simp
next
  case (Cons l es)
  from Cons.prems(1) obtain nm cp where
    rest: "lobbyists_loop (merge_lobbyist d nm cp) es = Inr d'"
    by (auto split: sum.splits)
  from Cons.IH [OF rest vals_distinct_merge [OF Cons.prems(2)]] show ?case .
qed

lemma lobbyists_loop_vals:
  "lobbyists_loop d es = Inr d' \<Longrightarrow>
     vals d' k = vals d k \<union>
       {cp. k \<noteq> [] \<and> keep cp \<and> (\<exists>l \<in> set es. display_name l = Inr k \<and> covered_position l = Inr cp)}"
proof (induction es arbitrary: d)
  case Nil
  then show ?case by simp
next
  case (Cons l es)
  from Cons.prems obtain nm cp where
    nm: "display_name l = Inr nm" and cp: "covered_position l = Inr cp"
    and rest: "lobbyists_loop (merge_lobbyist d nm cp) es = Inr d'"
    by (auto split: sum.splits)
  from Cons.IH [OF rest] nm cp show ?case
    unfolding vals_merge by auto
qed

lemma filing_entries_Cons:
  "filing_entries (a # as) = (case activity_entries a of Inl e \<Rightarrow> [] | Inr es \<Rightarrow> es) @ filing_entries as"
  by (simp add: filing_entries_def)

lemma activities_loop_keys:
  "activities_loop d as = Inr d' \<Longrightarrow>
     set (map fst d') = set (map fst d) \<union>
       {nm. nm \<noteq> [] \<and> (\<exists>l \<in> set (filing_entries as). display_name l = Inr nm)}"
proof (induction as arbitrary: d)
  case Nil
  then show ?case by (simp add: filing_entries_def)
next
  case (Cons a as)
  from Cons.prems obtain es d1 where
    es: "activity_entries a = Inr es" and inner: "lobbyists_loop d es = Inr d1"
    and rest: "activities_loop d1 as = Inr d'"
    by (auto split: sum.splits)
  from Cons.IH [OF rest] lobbyists_loop_keys [OF inner] es show ?case
    unfolding filing_entries_Cons by auto
qed

lemma activities_loop_distinct_keys:
  "activities_loop d as = Inr d' \<Longrightarrow> distinct (map fst d) \<Longrightarrow> distinct (map fst d')"
proof (induction as arbitrary: d)
  case Nil
  then show ?case by simp
next
  case (Cons a as)
  from Cons.prems(1) obtain es d1 where
    inner: "lobbyists_loop d es = Inr d1" and rest: "activities_loop d1 as = Inr d'"
    by (auto split: sum.splits)
  from Cons.IH [OF rest lobbyists_loop_distinct_keys [OF inner Cons.prems(2)]] show ?case .
qed

lemma activities_loop_vals_distinct:
  "activities_loop d as = Inr d' \<Longrightarrow> vals_distinct d \<Longrightarrow> vals_distinct d'"
proof (induction as arbitrary: d)
  case Nil
  then show ?case by simp
next
  case (Cons a as)
  from Cons.prems(1) obtain es d1 where
    inner: "lobbyists_loop d es = Inr d1" and rest: "activities_loop d1 as = Inr d'"
    by (auto split: sum.splits)
  from Cons.IH [OF rest lobbyists_loop_vals_distinct [OF inner Cons.prems(2)]] show ?case .
qed

lemma activities_loop_vals:
  "activities_loop d as = Inr d' \<Longrightarrow>
     vals d' k = vals d k \<union>
       {cp. k \<noteq> [] \<and> keep cp \<and>
            (\<exists>l \<in> set (filing_entries as). display_name l = Inr k \<and> covered_position l = Inr cp)}"
proof (induction as arbitrary: d)
  case Nil
  then show ?case by (simp add: filing_entries_def)
next
  case (Cons a as)
  from Cons.prems obtain es d1 where
    es: "activity_entries a = Inr es" and inner: "lobbyists_loop d es = Inr d1"
    and rest: "activities_loop d1 as = Inr d'"
    by (auto split: sum.splits)
  from Cons.IH [OF rest] lobbyists_loop_vals [OF inner, of k] es show ?case
    unfolding filing_entries_Cons by auto
qed

lemma name_of_entry_iff:
  "nm \<in> set (case display_name l of Inl e \<Rightarrow> [] | Inr n \<Rightarrow> if n = [] then [] else [n]) \<longleftrightarrow>
     nm \<noteq> [] \<and> display_name l = Inr nm"
  by (cases "display_name l") auto

lemma set_spec_names:
  "set (spec_names as) = {nm. nm \<noteq> [] \<and> (\<exists>l \<in> set (filing_entries as). display_name l = Inr nm)}"
  unfolding spec_names_def set_concat set_map
  using name_of_entry_iff by blast

lemma covered_position_iff:
  "covered_position l = Inr cp \<longleftrightarrow>
     (\<exists>raw. get l ''covered_position'' (PStr []) = Inr (PStr raw) \<and> cp = strip raw)"
proof (cases "get l ''covered_position'' (PStr [])")
  case (Inl e)
  then show ?thesis by (simp add: covered_position_def bind_result_def)
next
  case (Inr v)
  then show ?thesis by (cases v) (auto simp: covered_position_def bind_result_def)
qed

lemma set_cleaned: "set (cleaned raw) = {cp. cp = strip raw \<and> keep cp}"
  by (auto simp: cleaned_def Let_def keep_iff)

lemma position_of_entry_iff:
  "cp \<in> set (if display_name l = Inr k
               then (case get l ''covered_position'' (PStr []) of
                       Inr (PStr raw) \<Rightarrow> cleaned raw
                     | _ \<Rightarrow> [])
               else []) \<longleftrightarrow>
     keep cp \<and> display_name l = Inr k \<and> covered_position l = Inr cp"
proof (cases "get l ''covered_position'' (PStr [])")
  case (Inl e)
  then show ?thesis by (simp add: covered_position_iff cong: if_cong)
next
  case (Inr v)
  then show ?thesis by (cases v) (auto simp: covered_position_iff set_cleaned cong: if_cong)
qed

lemma set_spec_positions:
  "set (spec_positions as k) =
     {cp. keep cp \<and> (\<exists>l \<in> set (filing_entries as). display_name l = Inr k \<and> covered_position l = Inr cp)}"
  unfolding spec_positions_def set_concat set_map
  using position_of_entry_iff by blast

lemma vals_Nil: "vals [] k = {}"
  by (simp add: vals_def)

lemma extract_lobbyists_PList:
  "extract_lobbyists (PList as) = Inr res \<longleftrightarrow>
     (\<exists>d. activities_loop [] as = Inr d \<and> res = map (\<lambda>kv. \<lparr>name = fst kv, positions = snd kv\<rparr>) d)"
  by (auto simp: extract_lobbyists_def split: sum.splits)

lemma extract_lobbyists_not_list: "\<not> is_list v \<Longrightarrow> extract_lobbyists v = Inr []"
  by (cases v) (simp_all add: extract_lobbyists_def)

text \<open>
  C1, as amended. Whenever the merging derivation of \<^verbatim>\<open>streamlit_json.py\<close> returns, the
  collection has one entry for each non-empty display name the filing mentions and no
  two entries with the same name, and the entry for a name carries, without repetition,
  exactly the cleaned covered positions (trimmed, not empty, not \<^verbatim>\<open>n/a\<close> in any letter
  case) of all entries of the filing with that name.
\<close>

theorem extract_lobbyists_unique_merged:
  assumes "extract_lobbyists (PList activities) = Inr res"
  shows "distinct (map name res) \<and>
         set (map name res) = set (spec_names activities) \<and>
         (\<forall>e \<in> set res. distinct (positions e) \<and>
                          set (positions e) = set (spec_positions activities (name e)))"
proof -
  from assms obtain d where
    loop: "activities_loop [] activities = Inr d"
    and res: "res = map (\<lambda>kv. \<lparr>name = fst kv, positions = snd kv\<rparr>) d"
    unfolding extract_lobbyists_PList by blast
  have names: "map name res = map fst d"
    by (simp add: res)
  have dk: "distinct (map fst d)"
    using activities_loop_distinct_keys [OF loop] by simp
  have keys: "set (map fst d) = set (spec_names activities)"
    using activities_loop_keys [OF loop] by (simp add: set_spec_names)
  have vd: "vals_distinct d"
    using activities_loop_vals_distinct [OF loop] by (simp add: vals_distinct_def)
  have each: "distinct (positions e) \<and> set (positions e) = set (spec_positions activities (name e))"
    if e: "e \<in> set res" for e
  proof -
    from e res obtain kv where kv: "kv \<in> set d" and e_eq: "e = \<lparr>name = fst kv, positions = snd kv\<rparr>"
      by auto
    have mem: "(name e, positions e) \<in> set d"
      using kv e_eq by simp
    then have look: "map_of d (name e) = Some (positions e)"
      using dk by simp
    have ne: "name e \<noteq> []"
    proof -
      from mem have "name e \<in> set (map fst d)" by force
      then show ?thesis unfolding keys set_spec_names by simp
    qed
    have "set (positions e) = vals d (name e)"
      by (simp add: vals_def look)
    also have "\<dots> = set (spec_positions activities (name e))"
      unfolding activities_loop_vals [OF loop] set_spec_positions vals_Nil using ne by simp
    finally have "set (positions e) = set (spec_positions activities (name e))" .
    moreover have "distinct (positions e)"
      using vd mem by (auto simp: vals_distinct_def)
    ultimately show ?thesis by simp
  qed
  show ?thesis
    using names dk keys each by simp
qed

theorem extract_lobbyists_unique_merged_witness:
  "extract_lobbyists (PList two_activities) =
     Inr [\<lparr>name = ''Jane Doe'', positions = [''Senator'', ''Advisor'']\<rparr>] \<and>
   set (spec_names two_activities) = {''Jane Doe''} \<and>
   set (spec_positions two_activities ''Jane Doe'') = {''Senator'', ''Advisor''}"
proof -
  have run: "extract_lobbyists (PList two_activities) =
               Inr [\<lparr>name = ''Jane Doe'', positions = [''Senator'', ''Advisor'']\<rparr>]"
    by code_simp
  from extract_lobbyists_unique_merged [OF run] show ?thesis
    using run by auto
qed

lemma map_result_Inr: "map_result f xs = Inr ys \<Longrightarrow> map f xs = map Inr ys"
  by (induction xs arbitrary: ys) (auto split: sum.splits)

text \<open>
  \<^verbatim>\<open>extract_lobbyists\<close> of \<^verbatim>\<open>streamlit_app.py\<close> returns the display names of the entries
  of the filing, one for each entry, in order.
\<close>

lemma names_of_activities_entries:
  "names_of_activities activities = Inr names \<Longrightarrow>
     map display_name (filing_entries activities) = map Inr names"
proof (induction activities arbitrary: names)
  case Nil
  then show ?case by (simp add: filing_entries_def)
next
  case (Cons a as)
  from Cons.prems obtain es ns others where
    es: "activity_entries a = Inr es" and ns: "map_result display_name es = Inr ns"
    and rest: "names_of_activities as = Inr others" and names: "names = ns @ others"
    by (auto split: sum.splits)
  from Cons.IH [OF rest] map_result_Inr [OF ns] es names show ?case
    by (simp add: filing_entries_Cons)
qed

text \<open>
  C1 as stated fails on \<^verbatim>\<open>streamlit_app.py\<close>, whose \<open>lobbyists\<close> column is a plain list
  of names: a lobbyist listed by two activities appears twice.
\<close>

theorem extract_lobbyists_app_repeats:
  "extract_lobbyists_app (PList two_activities) = Inr [''Jane Doe'', ''Jane Doe''] \<and>
   \<not> distinct [''Jane Doe'', ''Jane Doe'']"
proof -
  have "extract_lobbyists_app (PList two_activities) = Inr [''Jane Doe'', ''Jane Doe'']"
    by code_simp
  then show ?thesis by simp
qed

text \<open>
  C2 fails on \<^verbatim>\<open>streamlit_json.py\<close>: a lobbyist entry with \<^verbatim>\<open>"covered_position": null\<close>
  makes \<^verbatim>\<open>extract_lobbyists\<close> raise \<^verbatim>\<open>AttributeError\<close>, since \<^verbatim>\<open>None\<close> has no
  \<^verbatim>\<open>strip\<close>. On the same filing \<^verbatim>\<open>extract_covered_positions\<close> of
  \<^verbatim>\<open>streamlit_app.py\<close>, which tests the value and converts it with \<^verbatim>\<open>str\<close>, returns
  the empty list.
\<close>

theorem extract_lobbyists_null_position_raises:
  "extract_lobbyists (PList null_position) = Inl AttributeError \<and>
   extract_covered_positions (PList null_position) = Inr []"
proof -
  have "extract_lobbyists (PList null_position) = Inl AttributeError"
    by code_simp
  moreover have "extract_covered_positions (PList null_position) = Inr []"
    by code_simp
  ultimately show ?thesis by simp
qed

text \<open>
  Both scripts read \<^verbatim>\<open>lobbyist['lobbyist']\<close> with no test: an entry without the nested
  object raises \<^verbatim>\<open>KeyError\<close> in either.
\<close>

lemma missing_lobbyist_object_raises:
  "extract_lobbyists (PList [PDict [(''lobbyists'', PList [PDict []])]]) = Inl KeyError \<and>
   extract_lobbyists_app (PList [PDict [(''lobbyists'', PList [PDict []])]]) = Inl KeyError"
proof -
  have "extract_lobbyists (PList [PDict [(''lobbyists'', PList [PDict []])]]) = Inl KeyError"
    by code_simp
  moreover have "extract_lobbyists_app (PList [PDict [(''lobbyists'', PList [PDict []])]]) = Inl KeyError"
    by code_simp
  ultimately show ?thesis by simp
qed

text \<open>
  C3. When \<^verbatim>\<open>lobbying_activities\<close> is anything but a list (\<^verbatim>\<open>nan\<close> for an absent key,
  \<^verbatim>\<open>None\<close> for null, a string, a number, an object), every lobbyist derivation of
  both scripts returns the empty list and raises nothing.
\<close>

theorem not_a_list_gives_empty:
  assumes "\<not> is_list activity_list"
  shows "extract_lobbyists activity_list = Inr [] \<and>
         extract_lobbyists_app activity_list = Inr [] \<and>
         extract_covered_positions activity_list = Inr []"
  using assms
  by (cases activity_list)
     (simp_all add: extract_lobbyists_def extract_lobbyists_app_def extract_covered_positions_def)

theorem not_a_list_gives_empty_witness:
  "\<not> is_list PNaN \<and> extract_lobbyists PNaN = Inr [] \<and> extract_lobbyists_app PNaN = Inr [] \<and>
   extract_covered_positions PNaN = Inr [] \<and>
   \<not> is_list PNone \<and> extract_lobbyists PNone = Inr [] \<and>
   \<not> is_list (PStr ''none'') \<and> extract_lobbyists (PStr ''none'') = Inr []"
  using not_a_list_gives_empty [of PNaN] not_a_list_gives_empty [of PNone]
    not_a_list_gives_empty [of "PStr ''none''"]
  by simp

text \<open>
  C10. The merging derivation never returns an entry with the empty name; an entry of
  the input whose display name is empty leaves the dictionary as it was, whatever its
  covered position, so the position is lost with it.
\<close>

theorem empty_name_dropped:
  "(extract_lobbyists activity_list = Inr res \<longrightarrow> (\<forall>e \<in> set res. name e \<noteq> [])) \<and>
   (display_name lobbyist = Inr [] \<longrightarrow> covered_position lobbyist = Inr cp \<longrightarrow>
      lobbyists_loop d (lobbyist # rest) = lobbyists_loop d rest)"
proof (intro conjI impI)
  assume run: "extract_lobbyists activity_list = Inr res"
  show "\<forall>e \<in> set res. name e \<noteq> []"
  proof (cases "is_list activity_list")
    case False
    from extract_lobbyists_not_list [OF False] run show ?thesis by simp
  next
    case True
    then obtain as where al: "activity_list = PList as" by (cases activity_list) simp_all
    from run obtain dict where
      loop: "activities_loop [] as = Inr dict"
      and res: "res = map (\<lambda>kv. \<lparr>name = fst kv, positions = snd kv\<rparr>) dict"
      unfolding al extract_lobbyists_PList by blast
    have "map name res = map fst dict" by (simp add: res)
    then have "set (map name res) = set (spec_names as)"
      using activities_loop_keys [OF loop] by (simp add: set_spec_names)
    then have "[] \<notin> set (map name res)"
      unfolding set_spec_names by simp
    then show ?thesis by force
  qed
next
  assume "display_name lobbyist = Inr []" and "covered_position lobbyist = Inr cp"
  then show "lobbyists_loop d (lobbyist # rest) = lobbyists_loop d rest"
    by (simp add: merge_lobbyist_def)
qed

theorem empty_name_dropped_witness:
  "extract_lobbyists (PList [PDict [(''lobbyists'', PList [nameless, jane_doe (PStr ''Advisor'')])]]) =
     Inr [\<lparr>name = ''Jane Doe'', positions = [''Advisor'']\<rparr>] \<and>
   display_name nameless = Inr [] \<and> covered_position nameless = Inr ''Senator'' \<and>
   lobbyists_loop [] [nameless] = Inr []"
proof -
  have run: "extract_lobbyists (PList [PDict [(''lobbyists'', PList [nameless, jane_doe (PStr ''Advisor'')])]]) =
               Inr [\<lparr>name = ''Jane Doe'', positions = [''Advisor'']\<rparr>]"
    by code_simp
  have nm: "display_name nameless = Inr []" by code_simp
  have cp: "covered_position nameless = Inr ''Senator''" by code_simp
  from empty_name_dropped [of "PList [PDict [(''lobbyists'', PList [nameless, jane_doe (PStr ''Advisor'')])]]"
      "[\<lparr>name = ''Jane Doe'', positions = [''Advisor'']\<rparr>]" nameless "''Senator''" "[]" "[]"]
  show ?thesis using run nm cp by simp
qed

section \<open>Properties of the other derived columns\<close>

lemma map_result_all_Inr:
  "(\<And>x. x \<in> set xs \<Longrightarrow> f x = Inr (g x)) \<Longrightarrow> map_result f xs = Inr (map g xs)"
  by (induction xs) simp_all

lemma entity_name_PDict:
  "entity_name (PDict kvs) = Inr (case map_of kvs ''name'' of None \<Rightarrow> [] | Some v \<Rightarrow> [v])"
  by (cases "map_of kvs ''name''") (simp_all add: entity_name_def bind_result_def)

text \<open>
  On a list of objects \<^verbatim>\<open>extract_foreign_entities\<close> of \<^verbatim>\<open>streamlit_json.py\<close> returns
  the names in order and passes over the objects that have none.
\<close>

lemma extract_foreign_entities_objects:
  "extract_foreign_entities (PList (map PDict objs)) =
     Inr (concat (map (\<lambda>kvs. case map_of kvs ''name'' of None \<Rightarrow> [] | Some v \<Rightarrow> [v]) objs))"
proof -
  have "map_result entity_name (map PDict objs) =
          Inr (map (\<lambda>e. case e of PDict kvs \<Rightarrow> (case map_of kvs ''name'' of None \<Rightarrow> [] | Some v \<Rightarrow> [v])
                               | _ \<Rightarrow> [])
                   (map PDict objs))"
    by (rule map_result_all_Inr) (auto simp: entity_name_PDict)
  then show ?thesis
    by (simp add: extract_foreign_entities_def comp_def)
qed

text \<open>
  C4 fails on \<^verbatim>\<open>streamlit_app.py\<close>: its lambda reads \<^verbatim>\<open>e["name"]\<close> with no test, so
  an entity without a name raises \<^verbatim>\<open>KeyError\<close>. \<^verbatim>\<open>extract_foreign_entities\<close> of
  \<^verbatim>\<open>streamlit_json.py\<close> passes over it.
\<close>

theorem foreign_entities_app_unnamed_raises:
  "foreign_entities_app one_unnamed_entity = Inl KeyError \<and>
   extract_foreign_entities one_unnamed_entity = Inr [PStr ''Acme Corp'']"
proof -
  have "foreign_entities_app one_unnamed_entity = Inl KeyError"
    by code_simp
  moreover have "extract_foreign_entities one_unnamed_entity = Inr [PStr ''Acme Corp'']"
    by code_simp
  ultimately show ?thesis by simp
qed

text \<open>Lowercasing then capitalizing gives \<^verbatim>\<open>Unknown\<close> for the spellings of that word only.\<close>

lemma lower_char_not_upper: "\<not> (CHR ''A'' \<le> lower_char c \<and> lower_char c \<le> CHR ''Z'')"
  by (auto simp: lower_char_def less_eq_char_def)

lemma lower_char_idem: "lower_char (lower_char c) = lower_char c"
  using lower_char_not_upper [of c] by (auto simp: lower_char_def [of "lower_char c"])

lemma upper_char_U:
  assumes "\<not> (CHR ''A'' \<le> x \<and> x \<le> CHR ''Z'')"
  shows "upper_char x = CHR ''U'' \<longleftrightarrow> x = CHR ''u''"
proof
  assume "x = CHR ''u''"
  then show "upper_char x = CHR ''U''" by (simp add: upper_char_def less_eq_char_def char_of_eq_iff)
next
  assume u: "upper_char x = CHR ''U''"
  show "x = CHR ''u''"
  proof (cases "CHR ''a'' \<le> x \<and> x \<le> CHR ''z''")
    case True
    then have r: "97 \<le> (of_char x :: nat)" "(of_char x :: nat) \<le> 122"
      by (simp_all add: less_eq_char_def)
    from u True have "char_of (of_char x - (32::nat)) = CHR ''U''"
      by (simp add: upper_char_def)
    then have "(of_char x - (32::nat)) mod 256 = 85"
      by (simp add: char_of_eq_iff take_bit_eq_mod)
    with r have "(of_char x :: nat) = 117" by simp
    then have "(of_char x :: nat) = of_char (CHR ''u'')" by simp
    then show ?thesis by (simp only: of_char_eq_iff)
  next
    case False
    with u have "x = CHR ''U''" by (simp add: upper_char_def)
    with assms show ?thesis by (simp add: less_eq_char_def)
  qed
qed

lemma capitalize_lower_Unknown:
  "capitalize (lower s) = ''Unknown'' \<longleftrightarrow> lower s = ''unknown''"
proof (cases s)
  case Nil
  then show ?thesis by (simp add: capitalize_def lower_def)
next
  case (Cons c cs)
  have "capitalize (lower s) = upper_char (lower_char c) # lower cs"
    by (simp add: Cons capitalize_def lower_def lower_char_idem)
  moreover have "lower s = lower_char c # lower cs"
    by (simp add: Cons lower_def)
  ultimately show ?thesis
    by (simp add: upper_char_U [OF lower_char_not_upper])
qed

text \<open>
  C6, as amended. The registrant type is \<^verbatim>\<open>Unknown\<close> when the description is absent or
  null. A description that is a string is kept as it is by \<^verbatim>\<open>streamlit_app.py\<close> and is
  lowercased, then capitalized in its first letter, by \<^verbatim>\<open>streamlit_json.py\<close>; the
  result is \<^verbatim>\<open>Unknown\<close> for the description \<^verbatim>\<open>Unknown\<close> itself in the first script and
  for that word in any letter case in the second.
\<close>

theorem registrant_type_cases:
  "registrant_type PNaN = Inr (PStr ''Unknown'') \<and>
   registrant_type PNone = Inr (PStr ''Unknown'') \<and>
   registrant_type (PStr s) = Inr (PStr (capitalize (lower s))) \<and>
   (registrant_type (PStr s) = Inr (PStr ''Unknown'') \<longleftrightarrow> lower s = ''unknown'') \<and>
   registrant_type_app PNaN = PStr ''Unknown'' \<and>
   registrant_type_app PNone = PStr ''Unknown'' \<and>
   registrant_type_app (PStr s) = PStr s"
proof -
  have "registrant_type (PStr s) = Inr (PStr (capitalize (lower s)))"
    by (simp add: registrant_type_def normalize_text_def bind_result_def)
  then show ?thesis
    by (simp add: registrant_type_def registrant_type_app_def bind_result_def
          capitalize_lower_Unknown)
qed

text \<open>
  C6 as stated fails in one direction: a description that is present can give
  \<^verbatim>\<open>Unknown\<close> too, so the value does not tell that the description was missing.
\<close>

theorem registrant_type_unknown_description:
  "registrant_type (PStr ''unknown'') = Inr (PStr ''Unknown'') \<and>
   registrant_type_app (PStr ''Unknown'') = PStr ''Unknown'' \<and>
   \<not> isna (PStr ''unknown'') \<and> \<not> isna (PStr ''Unknown'')"
proof -
  have "registrant_type (PStr ''unknown'') = Inr (PStr ''Unknown'')"
    by code_simp
  then show ?thesis
    by (simp add: registrant_type_app_def isna_def)
qed

text \<open>
  C7. For a URL that is a string the link is the anchor around the URL, which stands in
  it unchanged, with the label \<^verbatim>\<open>View Filing\<close>; the anchor is never the empty string.
  For an absent or null URL the link is the empty string.
\<close>

theorem create_hyperlink_cases:
  \<open>create_hyperlink (PStr url) = Inr (''<a href="'' @ url @ ''" target="_blank">View Filing</a>'') \<and>
   ''<a href="'' @ url @ ''" target="_blank">View Filing</a>'' \<noteq> [] \<and>
   create_hyperlink PNone = Inr [] \<and>
   create_hyperlink PNaN = Inr []\<close>
  by (simp add: create_hyperlink_def anchor_def py_str_def bind_result_def)

section \<open>Properties of the table operations\<close>

lemma select_rows_commute:
  "select_rows p (select_rows q df) = select_rows q (select_rows p df)"
  by (auto simp: select_rows_def intro: filter_cong)

text \<open>
  C8. Row selections by two masks commute, and so do the sidebar filters: the year
  filter and the client filter, and every other pair of the four filters, give the same
  rows in either order.
\<close>

theorem filters_commute:
  "select_rows p (select_rows q df) = select_rows q (select_rows p df) \<and>
   apply_client_filter cf (apply_year_filter yf df) = apply_year_filter yf (apply_client_filter cf df) \<and>
   apply_registrant_filter rf (apply_year_filter yf df) = apply_year_filter yf (apply_registrant_filter rf df) \<and>
   apply_foreign_filter ff (apply_year_filter yf df) = apply_year_filter yf (apply_foreign_filter ff df) \<and>
   apply_registrant_filter rf (apply_client_filter cf df) = apply_client_filter cf (apply_registrant_filter rf df) \<and>
   apply_foreign_filter ff (apply_client_filter cf df) = apply_client_filter cf (apply_foreign_filter ff df) \<and>
   apply_foreign_filter ff (apply_registrant_filter rf df) = apply_registrant_filter rf (apply_foreign_filter ff df)"
  unfolding apply_year_filter_def apply_client_filter_def apply_registrant_filter_def
    apply_foreign_filter_def
  by (simp add: select_rows_commute)

lemma explode_all_empty: "(\<forall>c \<in> set col. c = []) \<Longrightarrow> set (explode col) \<subseteq> {PNaN}"
  by (induction col) (auto simp: explode_def explode_cell_def)

lemma dropna_all_nan: "set col \<subseteq> {PNaN} \<Longrightarrow> dropna col = []"
  by (induction col) (auto simp: dropna_def isna_def)

text \<open>
  C9. When every row of a list-valued column holds the empty list, the exploded value
  count is the empty mapping. In general a count that is listed is never zero.
\<close>

theorem exploded_counts_of_empty_lists:
  "((\<forall>c \<in> set col. c = []) \<longrightarrow> value_counts (dropna (explode col)) = Inr Map.empty) \<and>
   (value_counts cells = Inr m \<longrightarrow> m v \<noteq> Some 0)"
proof (intro conjI impI)
  assume "\<forall>c \<in> set col. c = []"
  then have "dropna (explode col) = []"
    by (intro dropna_all_nan explode_all_empty)
  then show "value_counts (dropna (explode col)) = Inr Map.empty"
    by (simp add: value_counts_def)
next
  assume "value_counts cells = Inr m"
  then show "m v \<noteq> Some 0"
    by (auto simp: value_counts_def split: if_splits)
qed

theorem exploded_counts_of_empty_lists_witness:
  "value_counts (dropna (explode [[], [], []])) = Inr Map.empty \<and>
   value_counts [PStr ''a''] = Inr (\<lambda>v. if v = PStr ''a'' then Some 1 else None)"
proof -
  have counts: "value_counts [PStr ''a''] = Inr (\<lambda>v. if v = PStr ''a'' then Some 1 else None)"
    by (auto simp: value_counts_def isna_def)
  from exploded_counts_of_empty_lists [of "[[], [], []]" "[PStr ''a'']" "\<lambda>v. if v = PStr ''a'' then Some 1 else None" "PStr ''a''"]
  show ?thesis using counts by simp
qed

section \<open>Properties of the year column\<close>

lemma those_map_Some:
  "(\<And>x. x \<in> set xs \<Longrightarrow> f x = Some (g x)) \<Longrightarrow> those (map f xs) = Some (map g xs)"
  by (induction xs) simp_all

lemma those_map_None:
  "x \<in> set xs \<Longrightarrow> f x = None \<Longrightarrow> those (map f xs) = None"
  by (induction xs) (auto split: option.splits)

lemma round_float64_small: "\<bar>n\<bar> \<le> 2 ^ 53 \<Longrightarrow> round_float64 n = n"
  by (simp add: round_float64_def)

lemma checked_int64_small: "\<bar>n\<bar> \<le> 2 ^ 53 \<Longrightarrow> checked_int64 n = Some n"
  by (simp add: checked_int64_def int64_ok_def) linarith

lemma Int64_of_year_or_missing:
  "year_or_missing v \<Longrightarrow> Int64_of_cell strs floats v = Some (year_of v)"
proof (cases v)
  case (PInt n)
  assume "year_or_missing v"
  with PInt have small: "\<bar>n\<bar> \<le> 2 ^ 53" by (simp add: year_or_missing_def)
  then have "\<not> n < - (2 ^ 63)" by simp
  with PInt small show ?thesis
    by (simp add: year_of_def round_float64_small checked_int64_small)
qed (simp_all add: year_or_missing_def year_of_def isna_def)

text \<open>
  For a year cell the conversion does not depend on whether the column was stored as
  floats.
\<close>

lemma Int64_of_year_cell:
  "year_cell v \<Longrightarrow> Int64_of_cell strs floats v = Int64_of_cell strs False v"
proof (cases v)
  case (PInt n)
  assume "year_cell v"
  with PInt have small: "\<bar>n\<bar> \<le> 2 ^ 53" by (simp add: year_cell_def)
  then have "\<not> n < - (2 ^ 63)" by simp
  with PInt small show ?thesis
    by (simp add: round_float64_small)
qed simp_all

lemma Int64_of_missing: "isna v \<Longrightarrow> Int64_of_cell strs floats v = Some None"
  by (auto simp: isna_def)

lemma Int64_of_present: "\<not> isna v \<Longrightarrow> Int64_of_cell strs floats v \<noteq> Some None"
  by (cases v) (auto simp: isna_def)

lemma Int64_of_not_convertible:
  "not_convertible v \<Longrightarrow> Int64_of_cell strs floats v = None"
  by (cases v) (auto simp: not_convertible_def)

text \<open>
  A conversion that gives the missing value for the missing cells and for no other
  fails on a column exactly when it fails on the cells that are present, and otherwise
  gives their values with the missing value at the missing cells.
\<close>

lemma those_skip_missing:
  assumes "\<And>v. isna v \<Longrightarrow> g v = Some None" and "\<And>v. \<not> isna v \<Longrightarrow> g v \<noteq> Some None"
  shows "(those (map g col) = None) = (those (map g (dropna col)) = None) \<and>
         (\<forall>ys. those (map g col) = Some ys \<longrightarrow>
                 map (\<lambda>y. y = None) ys = map isna col \<and>
                 those (map g (dropna col)) = Some (filter (\<lambda>y. y \<noteq> None) ys))"
proof (induction col)
  case Nil
  then show ?case by (simp add: dropna_def)
next
  case (Cons v col)
  show ?case
  proof (cases "isna v")
    case True
    with assms(1) have "g v = Some None" by simp
    with True Cons show ?thesis
      by (auto simp: dropna_def split: option.splits)
  next
    case False
    with assms(2) have "g v \<noteq> Some None" by simp
    with False Cons show ?thesis
      by (cases "g v") (auto simp: dropna_def split: option.splits)
  qed
qed

lemma strs_dropna:
  "list_all (\<lambda>v. isna v \<or> is_str v) (dropna col) = list_all (\<lambda>v. isna v \<or> is_str v) col"
  by (induction col) (auto simp: dropna_def)

lemma no_missing_dropna: "\<not> list_ex isna (dropna col)"
  by (simp add: dropna_def list_ex_iff)

lemma astype_Int64_dropna:
  "astype_Int64 (dropna col) =
     those (map (Int64_of_cell (list_all (\<lambda>v. isna v \<or> is_str v) col) False) (dropna col))"
  by (simp add: astype_Int64_def Let_def strs_dropna no_missing_dropna)

lemma astype_Int64_year_cells:
  assumes "list_all year_cell col"
  shows "astype_Int64 col =
           those (map (Int64_of_cell (list_all (\<lambda>v. isna v \<or> is_str v) col) False) col)"
proof -
  have "map (Int64_of_cell strs floats) col = map (Int64_of_cell strs False) col" for strs floats
    using assms by (intro map_cong refl Int64_of_year_cell) (simp add: list_all_iff)
  then show ?thesis
    unfolding astype_Int64_def Let_def by (rule arg_cong [where f = those])
qed

lemma df_column_Some:
  "list_ex (\<lambda>r. map_of r k \<noteq> None) rows \<Longrightarrow> df_column k rows = Some (map (cell k) rows)"
  by (simp add: df_column_def)

lemma present_cell_has_key: "\<not> isna (cell k r) \<Longrightarrow> map_of r k \<noteq> None"
  by (auto simp: cell_def isna_def split: option.splits)

lemma year_counts_skip_missing: "year_counts (filter (\<lambda>y. y \<noteq> None) col) = year_counts col"
proof -
  have "count_list (filter (\<lambda>y. y \<noteq> None) col) (Some y) = count_list col (Some y)" for y :: int
    by (induction col) simp_all
  then show ?thesis by (simp add: year_counts_def cong: if_cong)
qed

lemma ints_of_with_str: "v \<in> set col \<Longrightarrow> is_str v \<Longrightarrow> ints_of col = None"
proof -
  assume v: "v \<in> set col" and s: "is_str v"
  from s have "(case v of PInt n \<Rightarrow> Some n | _ \<Rightarrow> None) = None"
    by (cases v) simp_all
  with v show ?thesis
    unfolding ints_of_def
    by (rule those_map_None [where f = "\<lambda>v. case v of PInt n \<Rightarrow> Some n | _ \<Rightarrow> None"])
qed

text \<open>
  C5, as amended. In \<^verbatim>\<open>streamlit_json.py\<close> a filing whose year is missing, by an absent
  key or by null, does not abort the load. Some filing must have the key. When every
  year is an integer of magnitude up to \<open>2 ^ 53\<close> or missing, the year column is built
  with one cell per filing, the missing years absent from it. When the years may also
  be strings, the load aborts exactly when it aborts on the years that are present;
  when it does not, the column has one cell per filing, absent exactly for the filings
  that miss the year, and the other cells hold what the years that are present convert
  to. A row with an absent year passes no year filter that is in force and adds nothing
  to the counts per year. A year that is a string which \<^verbatim>\<open>int\<close> cannot convert into
  64 bits aborts the load in both scripts.
\<close>

theorem filing_year_missing_or_unconvertible:
  "(list_ex (\<lambda>r. map_of r ''filing_year'' \<noteq> None) rows \<and>
    list_all (\<lambda>r. year_or_missing (cell ''filing_year'' r)) rows \<longrightarrow>
      filing_year_json rows = Some (map (\<lambda>r. year_of (cell ''filing_year'' r)) rows)) \<and>
   (list_ex (\<lambda>r. map_of r ''filing_year'' \<noteq> None) rows \<and>
    list_all (\<lambda>r. year_cell (cell ''filing_year'' r)) rows \<longrightarrow>
      (filing_year_json rows = None) =
        (astype_Int64 (dropna (map (cell ''filing_year'') rows)) = None) \<and>
      (\<forall>ys. filing_year_json rows = Some ys \<longrightarrow>
         map (\<lambda>y. y = None) ys = map (\<lambda>r. isna (cell ''filing_year'' r)) rows \<and>
         astype_Int64 (dropna (map (cell ''filing_year'') rows)) =
           Some (filter (\<lambda>y. y \<noteq> None) ys))) \<and>
   (year_filter \<noteq> [] \<longrightarrow> (\<forall>r \<in> set (apply_year_filter year_filter df). filing_year r \<noteq> None)) \<and>
   year_counts (filter (\<lambda>y. y \<noteq> None) col) = year_counts col \<and>
   (list_ex (\<lambda>r. not_convertible (cell ''filing_year'' r)) rows' \<longrightarrow>
      filing_year_json rows' = None \<and> filing_year_app rows' = None)"
proof (intro conjI impI)
  assume a: "list_ex (\<lambda>r. map_of r ''filing_year'' \<noteq> None) rows \<and>
             list_all (\<lambda>r. year_or_missing (cell ''filing_year'' r)) rows"
  then have col: "df_column ''filing_year'' rows = Some (map (cell ''filing_year'') rows)"
    by (simp add: df_column_Some)
  have "those (map (Int64_of_cell strs floats) (map (cell ''filing_year'') rows)) =
          Some (map year_of (map (cell ''filing_year'') rows))" for strs floats
  proof (rule those_map_Some)
    fix v assume "v \<in> set (map (cell ''filing_year'') rows)"
    with a have "year_or_missing v" by (auto simp: list_all_iff)
    then show "Int64_of_cell strs floats v = Some (year_of v)" by (rule Int64_of_year_or_missing)
  qed
  then show "filing_year_json rows = Some (map (\<lambda>r. year_of (cell ''filing_year'' r)) rows)"
    by (simp add: filing_year_json_def col astype_Int64_def Let_def comp_def)
next
  assume a: "list_ex (\<lambda>r. map_of r ''filing_year'' \<noteq> None) rows \<and>
             list_all (\<lambda>r. year_cell (cell ''filing_year'' r)) rows"
  define cells where "cells = map (cell ''filing_year'') rows"
  define g where "g = Int64_of_cell (list_all (\<lambda>v. isna v \<or> is_str v) cells) False"
  from a have col: "df_column ''filing_year'' rows = Some cells"
    by (simp add: df_column_Some cells_def)
  from a have "list_all year_cell cells"
    by (simp add: cells_def list_all_iff)
  then have whole: "filing_year_json rows = those (map g cells)"
    by (simp add: filing_year_json_def col astype_Int64_year_cells g_def)
  have present: "astype_Int64 (dropna cells) = those (map g (dropna cells))"
    by (simp add: astype_Int64_dropna g_def)
  have skip: "(those (map g cells) = None) = (those (map g (dropna cells)) = None) \<and>
              (\<forall>ys. those (map g cells) = Some ys \<longrightarrow>
                      map (\<lambda>y. y = None) ys = map isna cells \<and>
                      those (map g (dropna cells)) = Some (filter (\<lambda>y. y \<noteq> None) ys))"
    unfolding g_def by (rule those_skip_missing) (simp_all add: Int64_of_missing Int64_of_present)
  have shape: "map isna cells = map (\<lambda>r. isna (cell ''filing_year'' r)) rows"
    by (simp add: cells_def)
  have first: "(filing_year_json rows = None) = (astype_Int64 (dropna cells) = None)"
    using skip unfolding whole present by blast
  have second: "\<forall>ys. filing_year_json rows = Some ys \<longrightarrow>
                  map (\<lambda>y. y = None) ys = map isna cells \<and>
                  astype_Int64 (dropna cells) = Some (filter (\<lambda>y. y \<noteq> None) ys)"
    using skip unfolding whole present by blast
  from first show "(filing_year_json rows = None) =
                    (astype_Int64 (dropna (map (cell ''filing_year'') rows)) = None)"
    by (simp only: cells_def)
  from second show "\<forall>ys. filing_year_json rows = Some ys \<longrightarrow>
         map (\<lambda>y. y = None) ys = map (\<lambda>r. isna (cell ''filing_year'' r)) rows \<and>
         astype_Int64 (dropna (map (cell ''filing_year'') rows)) =
           Some (filter (\<lambda>y. y \<noteq> None) ys)"
    unfolding shape by (simp only: cells_def)
next
  assume "year_filter \<noteq> []"
  then show "\<forall>r \<in> set (apply_year_filter year_filter df). filing_year r \<noteq> None"
    by (auto simp: apply_year_filter_def select_rows_def isin_year_def split: option.splits)
next
  show "year_counts (filter (\<lambda>y. y \<noteq> None) col) = year_counts col"
    by (rule year_counts_skip_missing)
next
  assume "list_ex (\<lambda>r. not_convertible (cell ''filing_year'' r)) rows'"
  then obtain r where r: "r \<in> set rows'" and bad: "not_convertible (cell ''filing_year'' r)"
    by (auto simp: list_ex_iff)
  from bad have str: "is_str (cell ''filing_year'' r)"
    by (simp add: not_convertible_def)
  then have "\<not> isna (cell ''filing_year'' r)"
    by (cases "cell ''filing_year'' r") (simp_all add: isna_def)
  then have "map_of r ''filing_year'' \<noteq> None"
    by (rule present_cell_has_key)
  with r have "list_ex (\<lambda>r. map_of r ''filing_year'' \<noteq> None) rows'"
    by (auto simp: list_ex_iff)
  then have col: "df_column ''filing_year'' rows' = Some (map (cell ''filing_year'') rows')"
    by (rule df_column_Some)
  have in_col: "cell ''filing_year'' r \<in> set (map (cell ''filing_year'') rows')"
    using r by simp
  have "those (map (Int64_of_cell strs floats) (map (cell ''filing_year'') rows')) = None"
    for strs floats
    using in_col Int64_of_not_convertible [OF bad, of strs floats]
    by (rule those_map_None [where f = "Int64_of_cell strs floats"])
  then have "astype_Int64 (map (cell ''filing_year'') rows') = None"
    by (simp only: astype_Int64_def Let_def)
  then show "filing_year_json rows' = None"
    by (simp add: filing_year_json_def col)
  have "int_of_cell (cell ''filing_year'' r) = None"
    using bad by (simp add: not_convertible_def)
  with in_col have "those (map int_of_cell (map (cell ''filing_year'') rows')) = None"
    by (rule those_map_None [where f = int_of_cell])
  then have "astype_int (map (cell ''filing_year'') rows') = None"
    by (simp add: astype_int_def ints_of_with_str [OF in_col str])
  then show "filing_year_app rows' = None"
    by (simp add: filing_year_app_def col)
qed

theorem filing_year_missing_or_unconvertible_witness:
  "filing_year_json years_with_gaps = Some [Some 2023, None, None] \<and>
   filing_year_json text_years_with_gap = Some [Some 2023, None, Some 2024] \<and>
   astype_Int64 (dropna (map (cell ''filing_year'') text_years_with_gap)) =
     Some [Some 2023, Some 2024] \<and>
   apply_year_filter [2023] [acme_row, initech_row] = [acme_row] \<and>
   year_counts [Some 2023, None, None] 2023 = Some 1 \<and>
   not_convertible (PStr ''abc'') \<and>
   filing_year_json years_with_text = None \<and> filing_year_app years_with_text = None"
proof -
  have h1: "list_ex (\<lambda>r. map_of r ''filing_year'' \<noteq> None) years_with_gaps \<and>
            list_all (\<lambda>r. year_or_missing (cell ''filing_year'' r)) years_with_gaps"
    by (simp add: years_with_gaps_def year_or_missing_def cell_def isna_def)
  have h2: "list_ex (\<lambda>r. map_of r ''filing_year'' \<noteq> None) text_years_with_gap \<and>
            list_all (\<lambda>r. year_cell (cell ''filing_year'' r)) text_years_with_gap"
    by (simp add: text_years_with_gap_def year_cell_def cell_def isna_def)
  have h3: "list_ex (\<lambda>r. not_convertible (cell ''filing_year'' r)) years_with_text"
    by code_simp
  have bad: "not_convertible (PStr ''abc'')"
    by code_simp
  have run: "filing_year_json text_years_with_gap = Some [Some 2023, None, Some 2024]"
    by code_simp
  have sel: "apply_year_filter [2023] [acme_row, initech_row] = [acme_row]"
    by (simp add: apply_year_filter_def select_rows_def isin_year_def acme_row_def initech_row_def)
  have cnt: "year_counts [Some 2023, None, None] 2023 = Some 1"
    by (simp add: year_counts_def)
  have cells: "map (\<lambda>r. year_of (cell ''filing_year'' r)) years_with_gaps = [Some 2023, None, None]"
    by (simp add: years_with_gaps_def year_of_def cell_def)
  note ints = filing_year_missing_or_unconvertible
    [of years_with_gaps "[2023]" "[acme_row, initech_row]" "[Some 2023, None, None]" years_with_text]
  note strs = filing_year_missing_or_unconvertible
    [of text_years_with_gap "[2023]" "[acme_row, initech_row]" "[Some 2023, None, None]" years_with_text]
  from strs h2 run
  have present: "astype_Int64 (dropna (map (cell ''filing_year'') text_years_with_gap)) =
                   Some (filter (\<lambda>y. y \<noteq> None) [Some 2023, None, Some 2024])"
    by blast
  from ints h1 h3 have "filing_year_json years_with_gaps =
                          Some (map (\<lambda>r. year_of (cell ''filing_year'' r)) years_with_gaps) \<and>
                        filing_year_json years_with_text = None \<and>
                        filing_year_app years_with_text = None"
    by blast
  with present run bad sel cnt cells show ?thesis by simp
qed

text \<open>
  C5 as stated fails: a year that is not a number aborts the load, in
  \<^verbatim>\<open>streamlit_json.py\<close> as in \<^verbatim>\<open>streamlit_app.py\<close>; no row is produced.
\<close>

theorem filing_year_text_aborts:
  "filing_year_json years_with_text = None \<and> filing_year_app years_with_text = None"
proof -
  have "filing_year_json years_with_text = None" by code_simp
  moreover have "filing_year_app years_with_text = None" by code_simp
  ultimately show ?thesis by simp
qed

text \<open>
  In \<^verbatim>\<open>streamlit_app.py\<close> a missing year aborts the load as well, since \<^verbatim>\<open>astype(int)\<close>
  has no missing value.
\<close>

lemma filing_year_app_missing_aborts: "filing_year_app years_with_gaps = None"
  by code_simp

text \<open>
  In \<^verbatim>\<open>streamlit_app.py\<close> a year of \<open>2 ^ 63\<close> beside small ones does not abort the load:
  the column is unsigned and the conversion wraps the year around.
\<close>

lemma filing_year_app_wraps:
  "filing_year_app [[(''filing_year'', PInt (2 ^ 63))], [(''filing_year'', PInt 1)]] =
     Some [- (2 ^ 63), 1]"
  by (simp add: filing_year_app_def df_column_def cell_def astype_int_def ints_of_def
        int64_ok_def uint64_ok_def wrap_int64_def)

text \<open>
  Beside a missing year an integer of more than 53 bits is rounded in
  \<^verbatim>\<open>streamlit_json.py\<close>, and one that rounds to \<open>2 ^ 63\<close> aborts the load.
\<close>

lemma filing_year_json_rounds:
  "filing_year_json [[(''filing_year'', PInt (2 ^ 53 + 1))], [(''filing_year'', PNone)]] =
     Some [Some (2 ^ 53), None] \<and>
   filing_year_json [[(''filing_year'', PInt (2 ^ 63 - 1))], [(''filing_year'', PNone)]] = None \<and>
   filing_year_json [[(''filing_year'', PInt (2 ^ 63 - 1))]] = Some [Some (2 ^ 63 - 1)]"
proof -
  have "filing_year_json [[(''filing_year'', PInt (2 ^ 53 + 1))], [(''filing_year'', PNone)]] =
          Some [Some (2 ^ 53), None]"
    by code_simp
  moreover have "filing_year_json [[(''filing_year'', PInt (2 ^ 63 - 1))], [(''filing_year'', PNone)]] = None"
    by code_simp
  moreover have "filing_year_json [[(''filing_year'', PInt (2 ^ 63 - 1))]] = Some [Some (2 ^ 63 - 1)]"
    by code_simp
  ultimately show ?thesis by simp
qed

end
